theory Spec2Isabelle
  imports Complex_Main "HOL-Library.Word" "HOL-Library.Multiset"
begin

unbundle bit_operations_syntax

section \<open>Data model\<close>

text \<open>
  The program exists in two revisions, \<^verbatim>\<open>src/main.go\<close> and
  \<^verbatim>\<open>src/unnamed/part_000\<close>. Their chain cores (\<^verbatim>\<open>NewBlockchain\<close>, \<^verbatim>\<open>AddBlock\<close>,
  \<^verbatim>\<open>calculateBlockStats\<close>, \<^verbatim>\<open>calculateHash\<close> and the statistics) are the same text. They
  differ in the spelling of the string that \<^verbatim>\<open>markBlocksWithOutliers\<close> writes, in a field
  \<^verbatim>\<open>Text\<close> of \<^verbatim>\<open>Block\<close> that only the second revision declares (it is never assigned
  or read, and not hashed), and in \<^verbatim>\<open>go saveBlock(newBlock)\<close>, which only the first revision
  runs after the append (it writes a log line and touches no block).
\<close>

datatype revision = Main_go | Part_000

text \<open>
  In the chain, \<^verbatim>\<open>float64\<close> is modelled by \<^typ>\<open>real\<close>: no rounding, no NaN, no infinities
  (the statistics over doubles are a section of their own below). \<^verbatim>\<open>Index\<close> is
  a Go \<^verbatim>\<open>int\<close>; every append allocates a block, so a chain never holds \<open>2^63\<close> blocks and the
  index is modelled by \<^typ>\<open>int\<close> without wrap-around. \<^verbatim>\<open>Timestamp\<close> is a \<^verbatim>\<open>time.Time\<close>,
  modelled by its nanoseconds since the Unix epoch. \<^verbatim>\<open>Values\<close> and \<^verbatim>\<open>Outliers\<close> are slices,
  modelled by their contents: every batch handed to \<^verbatim>\<open>AddBlock\<close> is taken to be a slice of
  its own, as the generator of the repository builds it, not one sharing its array with the
  batch of an earlier block.
\<close>

record Block =
  Index :: int
  Timestamp :: int
  Values :: "real list"
  Hash :: string
  PrevHash :: string
  Mean :: real
  Median :: real
  TwoSDLower :: real
  TwoSDUpper :: real
  Outliers :: "real list"

text \<open>The chain is a slice of pointers to blocks, each block allocated by the call that
  appends it; the mutex \<^verbatim>\<open>mu\<close> carries no data.\<close>

record Blockchain =
  chain :: "Block list"

text \<open>A run-time panic of Go: \<^verbatim>\<open>index out of range [i] with length n\<close>.\<close>

datatype error = IndexOutOfRange int nat

definition at_index :: "'a list \<Rightarrow> int \<Rightarrow> error + 'a" where
  "at_index xs i =
     (if 0 \<le> i \<and> i < int (length xs) then Inr (xs ! nat i)
      else Inl (IndexOutOfRange i (length xs)))"

section \<open>Statistics\<close>

text \<open>On an empty slice Go's \<^verbatim>\<open>calculateMean\<close> returns NaN (\<open>0.0 / 0\<close>), which \<^typ>\<open>real\<close>
  does not have; the model's value there is \<open>0\<close>. No theorem below reads it.\<close>

definition calculateMean :: "real list \<Rightarrow> real" where
  "calculateMean values =
     foldl (\<lambda>sum value. sum + value) 0 values / real (length values)"

text \<open>\<^verbatim>\<open>sort.Float64s\<close> sorts the slice in place, ascending; the function returns the slice's new
  contents together with the median. \<^verbatim>\<open>n%2\<close> and \<^verbatim>\<open>n/2\<close> are taken on \<open>n \<ge> 0\<close>, where
  Go's truncation and HOL's flooring agree.\<close>

definition calculateMedian :: "real list \<Rightarrow> error + (real list \<times> real)" where
  "calculateMedian values =
     (let values = sort values;
          n = int (length values)
      in if n mod 2 = 0 then
           (case at_index values (n div 2 - 1) of
              Inl e \<Rightarrow> Inl e
            | Inr a \<Rightarrow>
                (case at_index values (n div 2) of
                   Inl e \<Rightarrow> Inl e
                 | Inr b \<Rightarrow> Inr (values, (a + b) / 2)))
         else
           (case at_index values (n div 2) of
              Inl e \<Rightarrow> Inl e
            | Inr m \<Rightarrow> Inr (values, m)))"

definition calculateVariance :: "real list \<Rightarrow> real \<Rightarrow> real" where
  "calculateVariance values mean =
     foldl (\<lambda>sumSquaredDiff value.
              let diff = value - mean in sumSquaredDiff + diff * diff) 0 values
       / real (length values)"

definition calculateTwoSDRange :: "real list \<Rightarrow> real \<times> real" where
  "calculateTwoSDRange values =
     (let mean = calculateMean values;
          variance = calculateVariance values mean;
          stdDev = sqrt variance;
          lowerBound = mean - (2 * stdDev);
          upperBound = mean + (2 * stdDev)
      in (lowerBound, upperBound))"

definition calculateOutliers :: "real list \<Rightarrow> real \<Rightarrow> real \<Rightarrow> real list" where
  "calculateOutliers values lowerBound upperBound =
     foldl (\<lambda>outliers value.
              if value < lowerBound \<or> value > upperBound then outliers @ [value]
              else outliers) [] values"

section \<open>The four goroutines of \<^verbatim>\<open>calculateBlockStats\<close>\<close>

text \<open>
  \<^verbatim>\<open>calculateBlockStats\<close> starts four goroutines on the same block and waits for all of
  them. Each is modelled as one atomic step on the block, and the order in which the
  scheduler runs them is a parameter: a list of the four, in any order. The goroutines
  share the block without synchronisation, so the order matters: the median sorts
  \<^verbatim>\<open>block.Values\<close> in place, and the outliers are computed from whatever
  \<^verbatim>\<open>block.TwoSDLower\<close> and \<^verbatim>\<open>block.TwoSDUpper\<close> hold when that goroutine runs.
  Interleavings inside a goroutine (a reader seeing a half-sorted slice) are not modelled.
  A panic in any goroutine ends the program.
\<close>

datatype goroutine = GoMean | GoMedian | GoTwoSDRange | GoOutliers

fun run_goroutine :: "goroutine \<Rightarrow> Block \<Rightarrow> error + Block" where
  "run_goroutine GoMean block = Inr (block\<lparr>Mean := calculateMean (Values block)\<rparr>)"
| "run_goroutine GoMedian block =
     (case calculateMedian (Values block) of
        Inl e \<Rightarrow> Inl e
      | Inr (values, m) \<Rightarrow> Inr (block\<lparr>Values := values, Median := m\<rparr>))"
| "run_goroutine GoTwoSDRange block =
     (case calculateTwoSDRange (Values block) of
        (lowerBound, upperBound) \<Rightarrow>
          Inr (block\<lparr>TwoSDLower := lowerBound, TwoSDUpper := upperBound\<rparr>))"
| "run_goroutine GoOutliers block =
     Inr (block\<lparr>Outliers :=
            calculateOutliers (Values block) (TwoSDLower block) (TwoSDUpper block)\<rparr>)"

fun run_schedule :: "goroutine list \<Rightarrow> Block \<Rightarrow> error + Block" where
  "run_schedule [] block = Inr block"
| "run_schedule (g # gs) block =
     (case run_goroutine g block of
        Inl e \<Rightarrow> Inl e
      | Inr block' \<Rightarrow> run_schedule gs block')"


definition calculateBlockStats :: "goroutine list \<Rightarrow> Block \<Rightarrow> error + Block" where
  "calculateBlockStats sched block = run_schedule sched block"

section \<open>Fingerprint\<close>

text \<open>
  \<^verbatim>\<open>crypto/sha256\<close> and the float verbs of \<^verbatim>\<open>fmt\<close> are library code and parameters of
  the model: \<open>Sum256\<close> returns the \<^verbatim>\<open>[32]byte\<close> digest as a 256-bit word (first byte
  most significant), \<open>verb_f\<close> is \<^verbatim>\<open>%f\<close> on a \<^verbatim>\<open>float64\<close>, \<open>verb_v\<close> is \<^verbatim>\<open>%v\<close> on a
  \<^verbatim>\<open>float64\<close>. A Go string is a sequence of bytes, as a HOL \<^typ>\<open>string\<close> is.
\<close>

record env =
  Sum256 :: "string \<Rightarrow> 256 word"
  verb_f :: "real \<Rightarrow> string"
  verb_v :: "real \<Rightarrow> string"

fun decimal :: "nat \<Rightarrow> string" where
  "decimal n =
     (if n < 10 then [''0123456789'' ! n]
      else decimal (n div 10) @ [''0123456789'' ! (n mod 10)])"

declare decimal.simps [simp del]

text \<open>\<^verbatim>\<open>%d\<close> on an integer.\<close>

definition verb_d :: "int \<Rightarrow> string" where
  "verb_d i = (if i < 0 then CHR ''-'' # decimal (nat (- i)) else decimal (nat i))"

text \<open>\<^verbatim>\<open>%v\<close> on a \<^verbatim>\<open>[]float64\<close>: the elements under \<^verbatim>\<open>%v\<close>, separated by one space, in
  square brackets; \<^verbatim>\<open>[]\<close> for a nil or empty slice.\<close>

fun spaced :: "string list \<Rightarrow> string" where
  "spaced [] = []"
| "spaced [s] = s"
| "spaced (s # t # ss) = s @ CHR '' '' # spaced (t # ss)"

definition verb_v_slice :: "env \<Rightarrow> real list \<Rightarrow> string" where
  "verb_v_slice e vs = CHR ''['' # spaced (map (verb_v e) vs) @ [CHR '']'']"

text \<open>\<^verbatim>\<open>Timestamp.Unix()\<close>: whole seconds since the epoch.\<close>

definition Unix :: "int \<Rightarrow> int" where
  "Unix t = t div 1000000000"

definition hextable :: string where
  "hextable = ''0123456789abcdef''"

text \<open>\<^verbatim>\<open>hex.EncodeToString\<close>: two characters of \<open>hextable\<close> for each byte, high nibble first.\<close>

fun EncodeToString :: "8 word list \<Rightarrow> string" where
  "EncodeToString [] = []"
| "EncodeToString (v # src) =
     hextable ! unat (drop_bit 4 v) # hextable ! unat (v AND 0x0f) # EncodeToString src"

definition digest_bytes :: "256 word \<Rightarrow> 8 word list" where
  "digest_bytes h = map (\<lambda>i. ucast (drop_bit (8 * (31 - i)) h)) [0..<32]"

definition blockData :: "env \<Rightarrow> Block \<Rightarrow> string" where
  "blockData e block =
     verb_d (Index block) @ verb_d (Unix (Timestamp block)) @ verb_v_slice e (Values block)
       @ PrevHash block @ verb_f e (Mean block) @ verb_f e (Median block)
       @ verb_f e (TwoSDLower block) @ verb_f e (TwoSDUpper block)
       @ verb_v_slice e (Outliers block)"

definition calculateHash :: "env \<Rightarrow> Block \<Rightarrow> string" where
  "calculateHash e block = EncodeToString (digest_bytes (Sum256 e (blockData e block)))"

section \<open>The chain\<close>

definition OUTLIER_BLOCK_HASH :: "revision \<Rightarrow> string" where
  "OUTLIER_BLOCK_HASH rv =
     (case rv of Main_go \<Rightarrow> ''OUTLITER_BLOCK_HASH'' | Part_000 \<Rightarrow> ''OUTLIER_BLOCK_HASH'')"

text \<open>\<open>now\<close> is the reading of \<^verbatim>\<open>time.Now()\<close>.\<close>

definition NewBlockchain :: "env \<Rightarrow> int \<Rightarrow> Blockchain" where
  "NewBlockchain e now =
     (let genesisBlock = \<lparr>Index = 0, Timestamp = now, Values = [], Hash = [],
                          PrevHash = [], Mean = 0, Median = 0, TwoSDLower = 0,
                          TwoSDUpper = 0, Outliers = []\<rparr>;
          genesisBlock = genesisBlock\<lparr>Hash := calculateHash e genesisBlock\<rparr>
      in \<lparr>chain = [genesisBlock]\<rparr>)"

definition markBlocksWithOutliers :: "revision \<Rightarrow> Blockchain \<Rightarrow> Blockchain" where
  "markBlocksWithOutliers rv bc =
     bc\<lparr>chain :=
          map (\<lambda>block. if length (Outliers block) > 0
                       then block\<lparr>Hash := OUTLIER_BLOCK_HASH rv\<rparr> else block)
              (chain bc)\<rparr>"

definition AddBlock ::
  "revision \<Rightarrow> env \<Rightarrow> goroutine list \<Rightarrow> int \<Rightarrow> real list \<Rightarrow> Blockchain \<Rightarrow> error + Blockchain"
where
  "AddBlock rv e sched now values bc =
     (case at_index (chain bc) (int (length (chain bc)) - 1) of
        Inl err \<Rightarrow> Inl err
      | Inr prevBlock \<Rightarrow>
          (let newBlock = \<lparr>Index = Index prevBlock + 1, Timestamp = now, Values = values,
                           Hash = [], PrevHash = Hash prevBlock, Mean = 0, Median = 0,
                           TwoSDLower = 0, TwoSDUpper = 0, Outliers = []\<rparr>
           in case calculateBlockStats sched newBlock of
                Inl err \<Rightarrow> Inl err
              | Inr newBlock \<Rightarrow>
                  (let bc = markBlocksWithOutliers rv bc;
                       newBlock = newBlock\<lparr>Hash := calculateHash e newBlock\<rparr>
                   in Inr (bc\<lparr>chain := chain bc @ [newBlock]\<rparr>))))"

text \<open>One call of \<^verbatim>\<open>AddBlock\<close>: the order in which its goroutines ran, the clock, the batch.\<close>

record append_call =
  sched :: "goroutine list"
  clock :: int
  batch :: "real list"

fun appends :: "revision \<Rightarrow> env \<Rightarrow> Blockchain \<Rightarrow> append_call list \<Rightarrow> error + Blockchain" where
  "appends rv e bc [] = Inr bc"
| "appends rv e bc (c # cs) =
     (case AddBlock rv e (sched c) (clock c) (batch c) bc of
        Inl err \<Rightarrow> Inl err
      | Inr bc' \<Rightarrow> appends rv e bc' cs)"

text \<open>A chain as the program builds it: \<^verbatim>\<open>NewBlockchain\<close>, then one \<^verbatim>\<open>AddBlock\<close> after
  the other (the mutex admits one at a time).\<close>

definition run :: "revision \<Rightarrow> env \<Rightarrow> int \<Rightarrow> append_call list \<Rightarrow> error + Blockchain" where
  "run rv e now0 cs = appends rv e (NewBlockchain e now0) cs"

section \<open>The statistics in \<^verbatim>\<open>float64\<close>\<close>

text \<open>
  Where rounding decides, the statistics are modelled a second time, over IEEE 754 doubles:
  a double is a real number, an infinity or NaN (the two zeros are not told apart); every
  operation rounds its exact result to the nearest double, ties to even, with 53 bits below
  the binade of the result and the subnormal spacing below \<open>2^-1022\<close>, and gives an
  infinity from \<open>2^1024\<close> on. \<^verbatim>\<open>math.Sqrt\<close> rounds the same way. \<open>dbl m e\<close> is the double
  \<open>m \<times> 2^e\<close>.
\<close>

datatype float64 = Finite real | PosInf | NegInf | NaN

definition rne :: "real \<Rightarrow> int" where
  "rne y =
     (let f = \<lfloor>y\<rfloor>; d = y - of_int f
      in if d < 1 / 2 then f else if 1 / 2 < d then f + 1 else if even f then f else f + 1)"

definition round_real :: "real \<Rightarrow> real" where
  "round_real x =
     (if x = 0 then 0
      else let e = max (- 1022) \<lfloor>log 2 \<bar>x\<bar>\<rfloor>; ulp = 2 powi (e - 52)
           in of_int (rne (x / ulp)) * ulp)"

definition round64 :: "real \<Rightarrow> float64" where
  "round64 x =
     (let y = round_real x
      in if 2 ^ 1024 \<le> y then PosInf else if y \<le> - (2 ^ 1024) then NegInf else Finite y)"

fun fneg :: "float64 \<Rightarrow> float64" where
  "fneg (Finite x) = Finite (- x)"
| "fneg PosInf = NegInf"
| "fneg NegInf = PosInf"
| "fneg NaN = NaN"

fun fadd :: "float64 \<Rightarrow> float64 \<Rightarrow> float64" where
  "fadd (Finite x) (Finite y) = round64 (x + y)"
| "fadd NaN b = NaN"
| "fadd a NaN = NaN"
| "fadd PosInf NegInf = NaN"
| "fadd NegInf PosInf = NaN"
| "fadd PosInf b = PosInf"
| "fadd a PosInf = PosInf"
| "fadd NegInf b = NegInf"
| "fadd a NegInf = NegInf"

definition fsub :: "float64 \<Rightarrow> float64 \<Rightarrow> float64" where
  "fsub a b = fadd a (fneg b)"

fun negative :: "float64 \<Rightarrow> bool" where
  "negative (Finite x) = (x < 0)"
| "negative NegInf = True"
| "negative a = False"

fun fmul :: "float64 \<Rightarrow> float64 \<Rightarrow> float64" where
  "fmul (Finite x) (Finite y) = round64 (x * y)"
| "fmul NaN b = NaN"
| "fmul a NaN = NaN"
| "fmul a b =
     (if a = Finite 0 \<or> b = Finite 0 then NaN
      else if negative a = negative b then PosInf else NegInf)"

fun fdiv :: "float64 \<Rightarrow> float64 \<Rightarrow> float64" where
  "fdiv (Finite x) (Finite y) =
     (if y = 0 then (if x = 0 then NaN else if 0 < x then PosInf else NegInf)
      else round64 (x / y))"
| "fdiv NaN b = NaN"
| "fdiv a NaN = NaN"
| "fdiv (Finite x) b = Finite 0"
| "fdiv a (Finite y) = (if negative a = (y < 0) then PosInf else NegInf)"
| "fdiv a b = NaN"

fun fsqrt :: "float64 \<Rightarrow> float64" where
  "fsqrt (Finite x) = (if x < 0 then NaN else round64 (sqrt x))"
| "fsqrt PosInf = PosInf"
| "fsqrt a = NaN"

fun fle :: "float64 \<Rightarrow> float64 \<Rightarrow> bool" where
  "fle NaN b = False"
| "fle a NaN = False"
| "fle (Finite x) (Finite y) = (x \<le> y)"
| "fle NegInf b = True"
| "fle a PosInf = True"
| "fle a b = False"

definition calculateMean_f64 :: "float64 list \<Rightarrow> float64" where
  "calculateMean_f64 values =
     fdiv (foldl (\<lambda>sum value. fadd sum value) (Finite 0) values)
          (round64 (real (length values)))"

definition calculateVariance_f64 :: "float64 list \<Rightarrow> float64 \<Rightarrow> float64" where
  "calculateVariance_f64 values mean =
     fdiv (foldl (\<lambda>sumSquaredDiff value.
                    let diff = fsub value mean in fadd sumSquaredDiff (fmul diff diff))
                 (Finite 0) values)
          (round64 (real (length values)))"

definition calculateTwoSDRange_f64 :: "float64 list \<Rightarrow> float64 \<times> float64" where
  "calculateTwoSDRange_f64 values =
     (let mean = calculateMean_f64 values;
          variance = calculateVariance_f64 values mean;
          stdDev = fsqrt variance;
          lowerBound = fsub mean (fmul (Finite 2) stdDev);
          upperBound = fadd mean (fmul (Finite 2) stdDev)
      in (lowerBound, upperBound))"

definition dbl :: "int \<Rightarrow> int \<Rightarrow> float64" where
  "dbl m e = Finite (of_int m * 2 powi e)"

section \<open>The specification's median\<close>

text \<open>The median as the specification words it, for comparison with the code: the middle
  element of the ascending batch, or the average of the two central ones.\<close>

definition spec_median :: "real list \<Rightarrow> real" where
  "spec_median vs =
     (let s = sort vs; n = length vs
      in if odd n then s ! (n div 2) else (s ! (n div 2 - 1) + s ! (n div 2)) / 2)"

section \<open>The specification's fingerprint\<close>

text \<open>The fingerprint as the specification words it, written without the functions of the
  model: the text of an integer in decimal digits; the text of a slice, its elements each
  after a space, the first space dropped, in square brackets; the message, the nine fields
  in their order; and the number that a string of lower-case hexadecimal digits denotes.\<close>

fun spec_digits :: "nat \<Rightarrow> string" where
  "spec_digits n = (if n = 0 then [] else spec_digits (n div 10) @ [char_of (48 + n mod 10)])"

declare spec_digits.simps [simp del]

definition spec_nat_text :: "nat \<Rightarrow> string" where
  "spec_nat_text n = (if n = 0 then ''0'' else spec_digits n)"

definition spec_int_text :: "int \<Rightarrow> string" where
  "spec_int_text i = (if i < 0 then ''-'' @ spec_nat_text (nat (- i)) else spec_nat_text (nat i))"

definition spec_slice_text :: "env \<Rightarrow> real list \<Rightarrow> string" where
  "spec_slice_text e vs =
     ''['' @ drop 1 (concat (map (\<lambda>v. '' '' @ verb_v e v) vs)) @ '']''"

definition spec_message :: "env \<Rightarrow> Block \<Rightarrow> string" where
  "spec_message e b =
     concat [spec_int_text (Index b), spec_int_text (Timestamp b div 1000000000),
             spec_slice_text e (Values b), PrevHash b, verb_f e (Mean b), verb_f e (Median b),
             verb_f e (TwoSDLower b), verb_f e (TwoSDUpper b), spec_slice_text e (Outliers b)]"

definition spec_hex_digit_value :: "char \<Rightarrow> nat" where
  "spec_hex_digit_value c =
     (let n = of_char c :: nat in if 48 \<le> n \<and> n \<le> 57 then n - 48 else n - 87)"

definition spec_hex_value :: "string \<Rightarrow> nat" where
  "spec_hex_value s = foldl (\<lambda>a c. 16 * a + spec_hex_digit_value c) 0 s"

section \<open>An environment for examples\<close>

text \<open>The theorems hold for every environment. Where a concrete chain is evaluated, this
  one is used: every message has the zero digest and the float verbs print nothing.\<close>

definition zero_digest :: "string \<Rightarrow> 256 word" where
  "zero_digest msg = 0"

definition no_text :: "real \<Rightarrow> string" where
  "no_text x = []"

definition env0 :: env where
  "env0 = \<lparr>Sum256 = zero_digest, verb_f = no_text, verb_v = no_text\<rparr>"

text \<open>Two calls of \<^verbatim>\<open>AddBlock\<close> and the chains after the first and after the second, on a
  new chain whose genesis block was stamped at the epoch. The first batch has the outlier
  \<open>11\<close>: its mean is \<open>2\<close>, its population standard deviation \<open>3\<close>, its band \<open>(-4, 8)\<close>.\<close>

definition call1 :: append_call where
  "call1 = \<lparr>sched = [GoMean, GoTwoSDRange, GoOutliers, GoMedian],
            clock = 1700000000000000000, batch = [11, 1, 1, 1, 1, 1, 1, 1, 1, 1]\<rparr>"

definition call2 :: append_call where
  "call2 = \<lparr>sched = [GoMedian, GoMean, GoTwoSDRange, GoOutliers],
            clock = 1700000005000000000, batch = [4, 2]\<rparr>"

definition chain1 :: Blockchain where
  "chain1 = \<lparr>chain =
     [\<lparr>Index = 0, Timestamp = 0, Values = [], Hash = replicate 64 CHR ''0'', PrevHash = [],
       Mean = 0, Median = 0, TwoSDLower = 0, TwoSDUpper = 0, Outliers = []\<rparr>,
      \<lparr>Index = 1, Timestamp = 1700000000000000000, Values = [1, 1, 1, 1, 1, 1, 1, 1, 1, 11],
       Hash = replicate 64 CHR ''0'', PrevHash = replicate 64 CHR ''0'',
       Mean = 2, Median = 1, TwoSDLower = - 4, TwoSDUpper = 8, Outliers = [11]\<rparr>]\<rparr>"

definition chain2 :: Blockchain where
  "chain2 = \<lparr>chain =
     [\<lparr>Index = 0, Timestamp = 0, Values = [], Hash = replicate 64 CHR ''0'', PrevHash = [],
       Mean = 0, Median = 0, TwoSDLower = 0, TwoSDUpper = 0, Outliers = []\<rparr>,
      \<lparr>Index = 1, Timestamp = 1700000000000000000, Values = [1, 1, 1, 1, 1, 1, 1, 1, 1, 11],
       Hash = ''OUTLITER_BLOCK_HASH'', PrevHash = replicate 64 CHR ''0'',
       Mean = 2, Median = 1, TwoSDLower = - 4, TwoSDUpper = 8, Outliers = [11]\<rparr>,
      \<lparr>Index = 2, Timestamp = 1700000005000000000, Values = [2, 4],
       Hash = replicate 64 CHR ''0'', PrevHash = replicate 64 CHR ''0'',
       Mean = 3, Median = 3, TwoSDLower = 1, TwoSDUpper = 5, Outliers = []\<rparr>]\<rparr>"

text \<open>A second environment, whose digest depends on every byte of the message (the bytes
  as the digits of a number in base 257, cut to 256 bits) and whose float verbs print the
  value in millionths, and a block to hash with it.\<close>

definition poly_digest :: "string \<Rightarrow> 256 word" where
  "poly_digest msg = word_of_nat (foldl (\<lambda>h c. 257 * h + of_char c) 0 msg)"

definition micro_text :: "real \<Rightarrow> string" where
  "micro_text x = spec_int_text \<lfloor>x * 1000000\<rfloor>"

definition env1 :: env where
  "env1 = \<lparr>Sum256 = poly_digest, verb_f = micro_text, verb_v = micro_text\<rparr>"

definition block1 :: Block where
  "block1 = \<lparr>Index = 1, Timestamp = 1700000000000000000, Values = [1, 2], Hash = [],
         PrevHash = ''00'', Mean = 3 / 2, Median = 3 / 2, TwoSDLower = 1 / 2,
         TwoSDUpper = 5 / 2, Outliers = []\<rparr>"

section \<open>Lemmas\<close>

subsection \<open>The loop of the outliers as a filter\<close>

lemma foldl_outliers_filter:
  "foldl (\<lambda>outliers value. if value < lo \<or> value > hi then outliers @ [value] else outliers) acc vs
     = acc @ filter (\<lambda>v. v < lo \<or> v > (hi::real)) vs"
  by (induction vs arbitrary: acc) simp_all

lemma calculateOutliers_filter:
  "calculateOutliers vs lo hi = filter (\<lambda>v. v < lo \<or> v > hi) vs"
  by (simp add: calculateOutliers_def foldl_outliers_filter)

subsection \<open>The median\<close>

lemma at_index_in_range: "i < length xs \<Longrightarrow> at_index xs (int i) = Inr (xs ! i)"
  by (simp add: at_index_def)

lemma calculateMedian_Nil: "calculateMedian [] = Inl (IndexOutOfRange (- 1) 0)"
  by (simp add: calculateMedian_def at_index_def)

lemma calculateMedian_nonempty:
  assumes "vs \<noteq> []"
  shows "calculateMedian vs =
     Inr (sort vs, if even (length vs)
                   then (sort vs ! (length vs div 2 - 1) + sort vs ! (length vs div 2)) / 2
                   else sort vs ! (length vs div 2))"
proof -
  define n where "n = length vs"
  define s where "s = sort vs"
  have n: "0 < n" using assms by (simp add: n_def)
  have len: "length s = n" by (simp add: n_def s_def)
  have lt_hi: "n div 2 < length s" unfolding len using n by arith
  have mid: "int (length s) div 2 = int (n div 2)" unfolding len by simp
  have hi: "at_index s (int (length s) div 2) = Inr (s ! (n div 2))"
    unfolding mid by (rule at_index_in_range [OF lt_hi])
  show ?thesis
  proof (cases "even n")
    case True
    then have two: "2 \<le> n" using n by presburger
    have lt_lo: "n div 2 - 1 < length s" unfolding len using n by arith
    have mid1: "int (length s) div 2 - 1 = int (n div 2 - 1)" unfolding len using two by simp
    have lo: "at_index s (int (length s) div 2 - 1) = Inr (s ! (n div 2 - 1))"
      unfolding mid1 by (rule at_index_in_range [OF lt_lo])
    have par: "int (length s) mod 2 = 0" unfolding len using True by presburger
    have "calculateMedian vs = Inr (s, (s ! (n div 2 - 1) + s ! (n div 2)) / 2)"
      unfolding calculateMedian_def Let_def s_def [symmetric] by (simp add: par lo hi)
    then show ?thesis using True by (simp add: n_def s_def)
  next
    case False
    then have par: "int (length s) mod 2 \<noteq> 0" unfolding len by presburger
    have "calculateMedian vs = Inr (s, s ! (n div 2))"
      unfolding calculateMedian_def Let_def s_def [symmetric] by (simp add: par hi)
    then show ?thesis using False by (simp add: n_def s_def)
  qed
qed

lemma calculateMedian_Inr: "calculateMedian vs = Inr (s, m) \<Longrightarrow> s = sort vs"
  by (auto simp: calculateMedian_def Let_def split: if_splits sum.splits)

lemma calculateMedian_Inl: "calculateMedian vs = Inl e \<Longrightarrow> vs = []"
  using calculateMedian_nonempty [of vs] by auto

subsection \<open>What the goroutines leave in the block, in any order\<close>

lemma run_goroutine_total:
  "Values block \<noteq> [] \<Longrightarrow> \<exists>b'. run_goroutine g block = Inr b'"
  by (cases g) (simp_all add: calculateMedian_nonempty split: prod.splits)

lemma run_goroutine_frame:
  assumes "run_goroutine g block = Inr b'"
  shows "Index b' = Index block \<and> Timestamp b' = Timestamp block \<and> Hash b' = Hash block
         \<and> PrevHash b' = PrevHash block
         \<and> Values b' = (if g = GoMedian then sort (Values block) else Values block)"
  using assms
  by (cases g) (auto split: sum.splits prod.splits dest: calculateMedian_Inr)

lemma run_schedule_total:
  "Values block \<noteq> [] \<Longrightarrow> \<exists>b'. run_schedule s block = Inr b'"
proof (induction s arbitrary: block)
  case Nil
  then show ?case by simp
next
  case (Cons g gs)
  from run_goroutine_total [OF Cons.prems] obtain b1 where b1: "run_goroutine g block = Inr b1"
    by blast
  from run_goroutine_frame [OF b1] Cons.prems have "Values b1 \<noteq> []"
    by (auto split: if_splits) (metis length_sort length_0_conv)
  from Cons.IH [OF this] show ?case by (simp add: b1)
qed

lemma run_schedule_frame:
  "run_schedule s block = Inr b' \<Longrightarrow>
     Index b' = Index block \<and> Timestamp b' = Timestamp block \<and> Hash b' = Hash block
     \<and> PrevHash b' = PrevHash block
     \<and> Values b' = (if GoMedian \<in> set s then sort (Values block) else Values block)"
proof (induction s arbitrary: block)
  case Nil
  then show ?case by simp
next
  case (Cons g gs)
  from Cons.prems obtain b1 where
    b1: "run_goroutine g block = Inr b1" and rest: "run_schedule gs b1 = Inr b'"
    by (auto split: sum.splits)
  from run_goroutine_frame [OF b1] Cons.IH [OF rest] show ?case
    by (auto simp: sort_key_id_if_sorted)
qed

subsection \<open>The fingerprint\<close>

lemma length_EncodeToString: "length (EncodeToString bs) = 2 * length bs"
  by (induction bs) simp_all

lemma length_digest_bytes: "length (digest_bytes h) = 32"
  by (simp add: digest_bytes_def)

lemma length_calculateHash: "length (calculateHash e b) = 64"
  by (simp add: calculateHash_def length_EncodeToString length_digest_bytes)

lemma high_nibble: "unat (drop_bit 4 (v :: 8 word)) < 16"
proof -
  have "unat v < 2 ^ 8" using unsigned_less [of v, where 'a = nat] by simp
  then have small: "unat v div 2 ^ 4 < 16" by simp
  have "unat (drop_bit 4 v) = drop_bit 4 (unat v)" by (rule unat_drop_bit_eq)
  also have "\<dots> = unat v div 2 ^ 4" by (rule drop_bit_eq_div)
  finally show ?thesis using small by simp
qed

lemma low_nibble: "unat ((v :: 8 word) AND 0x0f) < 16"
proof -
  have "v AND 0x0f = take_bit 4 v"
    by (simp add: take_bit_eq_mask mask_eq_exp_minus_1)
  then have "unat (v AND 0x0f) = unat (take_bit 4 v)" by simp
  also have "\<dots> = take_bit 4 (unat v)" by (rule unsigned_take_bit_eq)
  also have "\<dots> = unat v mod 2 ^ 4" by (rule take_bit_eq_mod)
  also have "\<dots> < 16" by simp
  finally show ?thesis .
qed

lemma hextable_nth: "n < 16 \<Longrightarrow> hextable ! n \<in> set hextable"
proof -
  assume "n < 16"
  moreover have "length hextable = 16" by (simp add: hextable_def)
  ultimately show ?thesis by (metis nth_mem)
qed

lemma set_EncodeToString: "set (EncodeToString bs) \<subseteq> set hextable"
  by (induction bs) (simp_all add: hextable_nth high_nibble low_nibble)

lemma blockData_Hash_update: "blockData e (b\<lparr>Hash := h\<rparr>) = blockData e b"
  by (simp add: blockData_def)

lemma calculateHash_Hash_update: "calculateHash e (b\<lparr>Hash := h\<rparr>) = calculateHash e b"
  by (simp add: calculateHash_def blockData_Hash_update)

lemma length_OUTLIER_BLOCK_HASH: "length (OUTLIER_BLOCK_HASH rv) < 64"
  by (cases rv) (simp_all add: OUTLIER_BLOCK_HASH_def)

lemma calculateHash_not_sentinel: "calculateHash e b \<noteq> OUTLIER_BLOCK_HASH rv"
  using length_calculateHash [of e b] length_OUTLIER_BLOCK_HASH [of rv] by auto

subsection \<open>The model's texts are the specification's\<close>

lemma digit_table: "n < 10 \<Longrightarrow> char_of (48 + n) = ''0123456789'' ! n"
proof -
  assume "n < 10"
  then have "n \<in> {0, 1, 2, 3, 4, 5, 6, 7, 8, 9}" by auto
  then show ?thesis by (auto simp: char_of_eq_iff)
qed

lemma decimal_spec: "decimal n = spec_nat_text n"
proof (induction n rule: decimal.induct)
  case (1 n)
  show ?case
  proof (cases "n < 10")
    case True
    then have "spec_digits n = (if n = 0 then [] else [char_of (48 + n)])"
      by (subst spec_digits.simps) (simp add: spec_digits.simps [of 0])
    then show ?thesis using True digit_table [OF True]
      by (subst decimal.simps) (auto simp: spec_nat_text_def)
  next
    case False
    then have pos: "n div 10 \<noteq> 0" "n \<noteq> 0" by auto
    have "decimal n = decimal (n div 10) @ [''0123456789'' ! (n mod 10)]"
      using False by (subst decimal.simps) simp
    also have "\<dots> = spec_digits (n div 10) @ [char_of (48 + n mod 10)]"
      using "1.IH" [OF False] pos digit_table [of "n mod 10"] by (simp add: spec_nat_text_def)
    also have "\<dots> = spec_digits n" using pos by (subst (2) spec_digits.simps) simp
    finally show ?thesis using pos by (simp add: spec_nat_text_def)
  qed
qed

lemma verb_d_spec: "verb_d i = spec_int_text i"
  by (simp add: verb_d_def spec_int_text_def decimal_spec)

lemma spaced_spec:
  "spaced (map f vs) = drop 1 (concat (map (\<lambda>v. '' '' @ f v) vs))"
proof (induction vs rule: induct_list012)
  case 1
  then show ?case by simp
next
  case (2 v)
  then show ?case by simp
next
  case (3 v w ws)
  then show ?case by simp
qed

lemma verb_v_slice_spec: "verb_v_slice e vs = spec_slice_text e vs"
  by (simp add: verb_v_slice_def spec_slice_text_def spaced_spec)

lemma blockData_spec: "blockData e b = spec_message e b"
  by (simp add: blockData_def spec_message_def verb_d_spec verb_v_slice_spec Unix_def)

subsection \<open>The fingerprint read as a number is the digest\<close>

lemma hex_digit_value_table: "n < 16 \<Longrightarrow> spec_hex_digit_value (hextable ! n) = n"
proof -
  have "[0..<16] = [0, 1, 2, 3, 4, 5, 6, 7, 8, 9, 10, 11, 12, 13, 14, 15 :: nat]"
    by code_simp
  moreover assume "n < 16"
  then have "n \<in> set [0..<16]" by simp
  ultimately have "n \<in> {0, 1, 2, 3, 4, 5, 6, 7, 8, 9, 10, 11, 12, 13, 14, 15}"
    by (simp only: list.set)
  then show ?thesis by (auto simp: spec_hex_digit_value_def hextable_def)
qed

lemma byte_nibbles: "16 * unat (drop_bit 4 (v :: 8 word)) + unat (v AND 0x0f) = unat v"
proof -
  have hi: "unat (drop_bit 4 v) = unat v div 16"
    using unat_drop_bit_eq [of 4 v] by (simp add: drop_bit_eq_div)
  have "v AND 0x0f = take_bit 4 v"
    by (simp add: take_bit_eq_mask mask_eq_exp_minus_1)
  then have "unat (v AND 0x0f) = unat (take_bit 4 v)" by simp
  also have "\<dots> = take_bit 4 (unat v)" by (rule unsigned_take_bit_eq)
  also have "\<dots> = unat v mod 16" by (simp add: take_bit_eq_mod)
  finally show ?thesis using hi by simp
qed

lemma foldl_hex_EncodeToString:
  "foldl (\<lambda>a c. 16 * a + spec_hex_digit_value c) a (EncodeToString bs) =
     foldl (\<lambda>a v. 256 * a + unat v) a bs"
proof (induction bs arbitrary: a)
  case Nil
  then show ?case by simp
next
  case (Cons v bs)
  show ?case
    by (simp add: Cons.IH hex_digit_value_table high_nibble low_nibble add.assoc
          byte_nibbles)
qed

lemma foldl_digest_bytes:
  "k \<le> 32 \<Longrightarrow>
     foldl (\<lambda>a v. 256 * a + unat v) 0
       (map (\<lambda>i. ucast (drop_bit (8 * (31 - i)) h) :: 8 word) [0..<k]) =
     unat (drop_bit (8 * (32 - k)) (h :: 256 word))"
proof (induction k)
  case 0
  have "drop_bit 256 h = 0" by (rule drop_bit_word_beyond) simp
  then show ?case by simp
next
  case (Suc k)
  define w where "w = drop_bit (8 * (31 - k)) h"
  have e: "8 * (32 - k) = 8 + 8 * (31 - k)" using Suc.prems by simp
  have prev: "drop_bit (8 * (32 - k)) h = drop_bit 8 w"
    by (simp only: w_def drop_bit_drop_bit e)
  have split: "256 * unat (drop_bit 8 w) + unat (ucast w :: 8 word) = unat w"
  proof -
    have "unat (drop_bit 8 w) = unat w div 256"
      using unat_drop_bit_eq [of 8 w] by (simp add: drop_bit_eq_div)
    moreover have "unat (ucast w :: 8 word) = unat w mod 256"
      by (simp add: unsigned_ucast_eq take_bit_eq_mod)
    ultimately show ?thesis by simp
  qed
  have "32 - Suc k = 31 - k" by simp
  then show ?case
    using Suc.IH Suc.prems split by (simp add: prev w_def)
qed

lemma spec_hex_value_calculateHash:
  "spec_hex_value (calculateHash e b) = unat (Sum256 e (spec_message e b))"
proof -
  have "spec_hex_value (calculateHash e b) =
          foldl (\<lambda>a v. 256 * a + unat v) 0 (digest_bytes (Sum256 e (blockData e b)))"
    by (simp add: spec_hex_value_def calculateHash_def foldl_hex_EncodeToString)
  also have "\<dots> = unat (drop_bit (8 * (32 - 32)) (Sum256 e (blockData e b)))"
    unfolding digest_bytes_def by (rule foldl_digest_bytes) simp
  finally show ?thesis by (simp add: blockData_spec)
qed

subsection \<open>The example block under the second environment\<close>

lemma spec_digits_eval:
  "spec_digits 0 = []"
  "spec_digits (Suc 0) = ''1''"
  "spec_digits (numeral k) = spec_digits (numeral k div 10) @ [char_of (48 + numeral k mod 10 :: nat)]"
  by (subst spec_digits.simps, simp add: spec_digits.simps [of 0] char_of_eq_iff)+

lemmas text_eval = micro_text_def spec_int_text_def spec_nat_text_def spec_digits_eval
  char_of_eq_iff spec_slice_text_def

lemma message_block1: "spec_message env1 block1 = ''11700000000[1000000 2000000]00150000015000005000002500000[]''"
  by (simp add: spec_message_def env1_def block1_def text_eval)

lemma message_block1_other: "spec_message env1 (block1\<lparr>Values := [1, 3]\<rparr>) = ''11700000000[1000000 3000000]00150000015000005000002500000[]''"
  by (simp add: spec_message_def env1_def block1_def text_eval)

lemma digest_block1: "unat (poly_digest ''11700000000[1000000 2000000]00150000015000005000002500000[]'') = 4563557977191748495412592677507283721819885994276677656056557955906285533396"
  by (simp add: poly_digest_def unsigned_of_nat take_bit_eq_mod)

lemma digest_block1_other: "unat (poly_digest ''11700000000[1000000 3000000]00150000015000005000002500000[]'') = 109991185146866614866045582199474687503166170467200877821164186120365480222421"
  by (simp add: poly_digest_def unsigned_of_nat take_bit_eq_mod)

lemma Sum256_env1: "Sum256 env1 = poly_digest"
  by (simp add: env1_def)

subsection \<open>Unfolding \<^verbatim>\<open>AddBlock\<close> and a sequence of appends\<close>

lemma at_index_last: "xs \<noteq> [] \<Longrightarrow> at_index xs (int (length xs) - 1) = Inr (last xs)"
proof -
  assume ne: "xs \<noteq> []"
  then have eq: "int (length xs) - 1 = int (length xs - 1)" by (cases xs) simp_all
  have lt: "length xs - 1 < length xs" using ne by simp
  show ?thesis
    unfolding eq last_conv_nth [OF ne] by (rule at_index_in_range [OF lt])
qed

lemma at_index_Nil: "at_index [] i = Inl (IndexOutOfRange i 0)"
  by (simp add: at_index_def)

lemma length_chain_mark [simp]:
  "length (chain (markBlocksWithOutliers rv bc)) = length (chain bc)"
  by (simp add: markBlocksWithOutliers_def)

lemma chain_mark_nth:
  "i < length (chain bc) \<Longrightarrow>
     chain (markBlocksWithOutliers rv bc) ! i =
       (if Outliers (chain bc ! i) = [] then chain bc ! i
        else (chain bc ! i)\<lparr>Hash := OUTLIER_BLOCK_HASH rv\<rparr>)"
  by (simp add: markBlocksWithOutliers_def)

lemma AddBlock_Inr:
  assumes "AddBlock rv e s now vs bc = Inr bc'"
  obtains nb where "chain bc \<noteq> []"
    and "run_schedule s \<lparr>Index = Index (last (chain bc)) + 1, Timestamp = now, Values = vs,
           Hash = [], PrevHash = Hash (last (chain bc)), Mean = 0, Median = 0,
           TwoSDLower = 0, TwoSDUpper = 0, Outliers = []\<rparr> = Inr nb"
    and "chain bc' = chain (markBlocksWithOutliers rv bc) @ [nb\<lparr>Hash := calculateHash e nb\<rparr>]"
proof -
  have ne: "chain bc \<noteq> []"
    using assms by (auto simp: AddBlock_def at_index_Nil)
  show thesis
    using assms that [OF ne]
    by (auto simp: AddBlock_def at_index_last [OF ne] calculateBlockStats_def Let_def
          split: sum.splits)
qed

lemma AddBlock_total:
  assumes "chain bc \<noteq> []" and "vs \<noteq> []"
  shows "\<exists>bc'. AddBlock rv e s now vs bc = Inr bc'"
proof -
  let ?shell = "\<lparr>Index = Index (last (chain bc)) + 1, Timestamp = now, Values = vs,
           Hash = [], PrevHash = Hash (last (chain bc)), Mean = 0, Median = 0,
           TwoSDLower = 0, TwoSDUpper = 0, Outliers = []\<rparr>"
  have "Values ?shell \<noteq> []" using assms(2) by simp
  from run_schedule_total [OF this] obtain nb where "run_schedule s ?shell = Inr nb" by blast
  then show ?thesis
    by (simp add: AddBlock_def at_index_last [OF assms(1)] calculateBlockStats_def Let_def)
qed

lemma run_schedule_empty_batch:
  "Values block = [] \<Longrightarrow> GoMedian \<in> set s \<Longrightarrow>
     run_schedule s block = Inl (IndexOutOfRange (- 1) 0)"
proof (induction s arbitrary: block)
  case Nil
  then show ?case by simp
next
  case (Cons g gs)
  show ?case
  proof (cases "g = GoMedian")
    case True
    then show ?thesis using Cons.prems(1) by (simp add: calculateMedian_Nil)
  next
    case False
    then have "\<exists>b1. run_goroutine g block = Inr b1"
      by (cases g) (simp_all split: prod.splits)
    then obtain b1 where b1: "run_goroutine g block = Inr b1" by blast
    from run_goroutine_frame [OF b1] False Cons.prems(1) have "Values b1 = []" by simp
    moreover have "GoMedian \<in> set gs" using Cons.prems(2) False by auto
    ultimately show ?thesis using Cons.IH b1 by simp
  qed
qed

lemma appends_snoc:
  "appends rv e bc (cs @ [c]) =
     (case appends rv e bc cs of
        Inl err \<Rightarrow> Inl err
      | Inr bc1 \<Rightarrow> AddBlock rv e (sched c) (clock c) (batch c) bc1)"
  by (induction cs arbitrary: bc) (auto split: sum.splits)

lemma run_snoc_Inr:
  assumes "run rv e t0 (cs @ [c]) = Inr bc'"
  obtains bc where "run rv e t0 cs = Inr bc"
    and "AddBlock rv e (sched c) (clock c) (batch c) bc = Inr bc'"
  using assms by (auto simp: run_def appends_snoc split: sum.splits)

lemma run_Nil: "run rv e t0 [] = Inr (NewBlockchain e t0)"
  by (simp add: run_def)

subsection \<open>The block appended and the blocks before it\<close>

lemma AddBlock_last:
  assumes "AddBlock rv e s now vs bc = Inr bc'"
  shows "chain bc \<noteq> []"
    and "length (chain bc') = Suc (length (chain bc))"
    and "Index (last (chain bc')) = Index (last (chain bc)) + 1"
    and "Timestamp (last (chain bc')) = now"
    and "PrevHash (last (chain bc')) = Hash (last (chain bc))"
    and "Hash (last (chain bc')) = calculateHash e (last (chain bc'))"
    and "Values (last (chain bc')) = (if GoMedian \<in> set s then sort vs else vs)"
proof -
  from assms obtain nb where ne: "chain bc \<noteq> []"
    and nb: "run_schedule s \<lparr>Index = Index (last (chain bc)) + 1, Timestamp = now, Values = vs,
           Hash = [], PrevHash = Hash (last (chain bc)), Mean = 0, Median = 0,
           TwoSDLower = 0, TwoSDUpper = 0, Outliers = []\<rparr> = Inr nb"
    and ch: "chain bc' = chain (markBlocksWithOutliers rv bc) @ [nb\<lparr>Hash := calculateHash e nb\<rparr>]"
    by (rule AddBlock_Inr)
  have l: "last (chain bc') = nb\<lparr>Hash := calculateHash e nb\<rparr>" by (simp add: ch)
  show "chain bc \<noteq> []" by (rule ne)
  show "length (chain bc') = Suc (length (chain bc))" by (simp add: ch)
  show "Index (last (chain bc')) = Index (last (chain bc)) + 1"
    using run_schedule_frame [OF nb] by (simp add: l)
  show "Timestamp (last (chain bc')) = now"
    using run_schedule_frame [OF nb] by (simp add: l)
  show "PrevHash (last (chain bc')) = Hash (last (chain bc))"
    using run_schedule_frame [OF nb] by (simp add: l)
  show "Hash (last (chain bc')) = calculateHash e (last (chain bc'))"
    by (simp add: l calculateHash_Hash_update)
  show "Values (last (chain bc')) = (if GoMedian \<in> set s then sort vs else vs)"
    using run_schedule_frame [OF nb] by (simp add: l)
qed

lemma AddBlock_old:
  assumes "AddBlock rv e s now vs bc = Inr bc'" and "i < length (chain bc)"
  shows "chain bc' ! i =
       (if Outliers (chain bc ! i) = [] then chain bc ! i
        else (chain bc ! i)\<lparr>Hash := OUTLIER_BLOCK_HASH rv\<rparr>)"
proof -
  from assms(1) obtain nb where
    ch: "chain bc' = chain (markBlocksWithOutliers rv bc) @ [nb\<lparr>Hash := calculateHash e nb\<rparr>]"
    by (rule AddBlock_Inr)
  show ?thesis using assms(2) by (simp add: ch nth_append chain_mark_nth)
qed

lemma AddBlock_old_fields:
  assumes "AddBlock rv e s now vs bc = Inr bc'" and "i < length (chain bc)"
  shows "Index (chain bc' ! i) = Index (chain bc ! i)"
    and "Timestamp (chain bc' ! i) = Timestamp (chain bc ! i)"
    and "Values (chain bc' ! i) = Values (chain bc ! i)"
    and "PrevHash (chain bc' ! i) = PrevHash (chain bc ! i)"
    and "Outliers (chain bc' ! i) = Outliers (chain bc ! i)"
  by (simp_all add: AddBlock_old [OF assms])

lemma AddBlock_new_nth:
  assumes "AddBlock rv e s now vs bc = Inr bc'"
  shows "chain bc' ! length (chain bc) = last (chain bc')"
proof -
  have "chain bc' \<noteq> []" using AddBlock_last(2) [OF assms] by auto
  then show ?thesis using AddBlock_last(2) [OF assms] by (simp add: last_conv_nth)
qed


lemma AddBlock_empty_batch:
  assumes "chain bc \<noteq> []" and "GoMedian \<in> set s"
  shows "AddBlock rv e s now [] bc = Inl (IndexOutOfRange (- 1) 0)"
  by (simp add: AddBlock_def at_index_last [OF assms(1)] calculateBlockStats_def
        run_schedule_empty_batch [OF _ assms(2)])

subsection \<open>Chains built by the program\<close>

lemma run_length: "run rv e t0 cs = Inr bc \<Longrightarrow> length (chain bc) = Suc (length cs)"
proof (induction cs arbitrary: bc rule: rev_induct)
  case Nil
  then show ?case by (auto simp: run_Nil NewBlockchain_def Let_def)
next
  case (snoc c cs)
  from snoc.prems obtain bc1 where r: "run rv e t0 cs = Inr bc1"
    and a: "AddBlock rv e (sched c) (clock c) (batch c) bc1 = Inr bc"
    by (rule run_snoc_Inr)
  show ?case using snoc.IH [OF r] AddBlock_last(2) [OF a] by simp
qed

lemma run_Index:
  "run rv e t0 cs = Inr bc \<Longrightarrow> i < length (chain bc) \<Longrightarrow> Index (chain bc ! i) = int i"
proof (induction cs arbitrary: bc i rule: rev_induct)
  case Nil
  then show ?case by (auto simp: run_Nil NewBlockchain_def Let_def)
next
  case (snoc c cs)
  from snoc.prems(1) obtain bc1 where r: "run rv e t0 cs = Inr bc1"
    and a: "AddBlock rv e (sched c) (clock c) (batch c) bc1 = Inr bc"
    by (rule run_snoc_Inr)
  have len: "length (chain bc) = Suc (length (chain bc1))" by (rule AddBlock_last(2) [OF a])
  have ne: "chain bc1 \<noteq> []" by (rule AddBlock_last(1) [OF a])
  show ?case
  proof (cases "i < length (chain bc1)")
    case True
    then show ?thesis using snoc.IH [OF r True] AddBlock_old_fields(1) [OF a True] by simp
  next
    case False
    then have i: "i = length (chain bc1)" using snoc.prems(2) len by simp
    have "Index (last (chain bc1)) = int (length (chain bc1) - 1)"
      using snoc.IH [OF r, of "length (chain bc1) - 1"] ne by (simp add: last_conv_nth)
    moreover have "int (length (chain bc1) - 1) + 1 = int (length (chain bc1))"
      using ne by (cases "chain bc1") simp_all
    ultimately show ?thesis
      using AddBlock_last(3) [OF a] by (simp add: i AddBlock_new_nth [OF a])
  qed
qed

lemma run_take:
  "run rv e t0 cs = Inr bc \<Longrightarrow> \<exists>bcp. run rv e t0 (take k cs) = Inr bcp"
proof (induction cs arbitrary: bc rule: rev_induct)
  case Nil
  then show ?case by simp
next
  case (snoc c cs)
  from snoc.prems obtain bc1 where r: "run rv e t0 cs = Inr bc1"
    by (rule run_snoc_Inr)
  show ?case
  proof (cases "k \<le> length cs")
    case True
    then show ?thesis using snoc.IH [OF r] by simp
  next
    case False
    then show ?thesis using snoc.prems by simp
  qed
qed

lemma run_PrevHash:
  "run rv e t0 cs = Inr bc \<Longrightarrow> 0 < n \<Longrightarrow> n \<le> length cs \<Longrightarrow>
     run rv e t0 (take (n - 1) cs) = Inr bcp \<Longrightarrow>
     PrevHash (chain bc ! n) = Hash (last (chain bcp))"
proof (induction cs arbitrary: bc rule: rev_induct)
  case Nil
  then show ?case by simp
next
  case (snoc c cs)
  from snoc.prems(1) obtain bc1 where r: "run rv e t0 cs = Inr bc1"
    and a: "AddBlock rv e (sched c) (clock c) (batch c) bc1 = Inr bc"
    by (rule run_snoc_Inr)
  have len1: "length (chain bc1) = Suc (length cs)" by (rule run_length [OF r])
  show ?case
  proof (cases "n \<le> length cs")
    case True
    then have "run rv e t0 (take (n - 1) cs) = Inr bcp" using snoc.prems(4) by simp
    from snoc.IH [OF r snoc.prems(2) True this]
    show ?thesis using AddBlock_old_fields(4) [OF a, of n] True len1 by simp
  next
    case False
    then have n: "n = Suc (length cs)" using snoc.prems(3) by simp
    then have "bcp = bc1" using snoc.prems(4) r by simp
    then show ?thesis
      using AddBlock_last(5) [OF a] AddBlock_new_nth [OF a] len1 n by simp
  qed
qed

lemma appends_total:
  "chain bc \<noteq> [] \<Longrightarrow> \<forall>c\<in>set cs. batch c \<noteq> [] \<Longrightarrow>
     \<exists>bc'. appends rv e bc cs = Inr bc' \<and> length (chain bc') = length (chain bc) + length cs"
proof (induction cs arbitrary: bc)
  case Nil
  then show ?case by simp
next
  case (Cons c cs)
  have "batch c \<noteq> []" using Cons.prems(2) by simp
  from AddBlock_total [OF Cons.prems(1) this]
  obtain bc1 where a': "AddBlock rv e (sched c) (clock c) (batch c) bc = Inr bc1"
    by blast
  have len: "length (chain bc1) = Suc (length (chain bc))" by (rule AddBlock_last(2) [OF a'])
  then have "chain bc1 \<noteq> []" by auto
  from Cons.IH [OF this] Cons.prems(2) obtain bc' where
    "appends rv e bc1 cs = Inr bc'" "length (chain bc') = length (chain bc1) + length cs"
    by auto
  then show ?case using a' len by simp
qed





subsection \<open>The example chain\<close>

lemma sqrt_9: "sqrt 9 = 3"
  using real_sqrt_abs [of 3] by simp

lemma calculateHash_env0: "calculateHash env0 b = replicate 64 CHR ''0''"
  by (simp add: calculateHash_def env0_def zero_digest_def digest_bytes_def hextable_def
        upt_rec numeral_eq_Suc)

lemma zeros_not_sentinel: "replicate 64 CHR ''0'' \<noteq> OUTLIER_BLOCK_HASH rv"
  using calculateHash_not_sentinel [of env0 "last (chain chain1)" rv]
  by (simp add: calculateHash_env0)

lemma AddBlock_call1:
  "AddBlock Main_go env0 (sched call1) (clock call1) (batch call1) (NewBlockchain env0 0) =
     Inr chain1"
  by (simp add: call1_def chain1_def AddBlock_def NewBlockchain_def at_index_def
        calculateBlockStats_def calculateTwoSDRange_def calculateVariance_def
        calculateMedian_def calculateMean_def calculateOutliers_def
        markBlocksWithOutliers_def calculateHash_env0 sqrt_9)

lemma run_call1: "run Main_go env0 0 [call1] = Inr chain1"
  by (simp add: run_def AddBlock_call1)

lemma AddBlock_call2:
  "AddBlock Main_go env0 (sched call2) (clock call2) (batch call2) chain1 = Inr chain2"
  by (simp add: call2_def chain1_def chain2_def AddBlock_def at_index_def calculateBlockStats_def
        calculateTwoSDRange_def calculateVariance_def calculateMedian_def calculateMean_def
        calculateOutliers_def markBlocksWithOutliers_def calculateHash_env0
        OUTLIER_BLOCK_HASH_def)

lemma run_call12: "run Main_go env0 0 [call1, call2] = Inr chain2"
  using run_call1 AddBlock_call2 by (auto simp: run_def split: sum.splits)



subsection \<open>The outliers goroutine between the band and the median\<close>

text \<open>When the band is ready and the slice not yet sorted, the outliers are the values of
  the batch outside the band, in the order of the batch.\<close>

lemma outliers_when_ordered:
  assumes "vs \<noteq> []"
    and "calculateBlockStats [GoMean, GoTwoSDRange, GoOutliers, GoMedian]
           \<lparr>Index = i, Timestamp = t, Values = vs, Hash = [], PrevHash = p, Mean = 0,
            Median = 0, TwoSDLower = 0, TwoSDUpper = 0, Outliers = []\<rparr> = Inr b"
  shows "Outliers b = filter (\<lambda>v. v < TwoSDLower b \<or> v > TwoSDUpper b) vs"
  using assms
  by (auto simp: calculateBlockStats_def calculateMedian_nonempty calculateOutliers_filter
        split: prod.splits)

subsection \<open>The outliers goroutine after the median goroutine\<close>

text \<open>When the band is ready but the median goroutine has already sorted the slice, the
  outliers come out in ascending order, not in the order of the batch.\<close>

lemma sqrt_2209_25: "sqrt (2209 / 25) = 47 / 5"
  using real_sqrt_abs [of "47 / 5"] by (simp add: power2_eq_square)

lemma outliers_race_sorted_order:
  "calculateBlockStats [GoMean, GoMedian, GoTwoSDRange, GoOutliers]
     \<lparr>Index = 1, Timestamp = 1700000000000000000, Values = [21, - 21, 1, 1, 1, 1, 1, 1, 1, 1],
      Hash = [], PrevHash = replicate 64 CHR ''0'', Mean = 0, Median = 0, TwoSDLower = 0,
      TwoSDUpper = 0, Outliers = []\<rparr> =
   Inr \<lparr>Index = 1, Timestamp = 1700000000000000000,
      Values = [- 21, 1, 1, 1, 1, 1, 1, 1, 1, 21],
      Hash = [], PrevHash = replicate 64 CHR ''0'', Mean = 4 / 5, Median = 1,
      TwoSDLower = - 18, TwoSDUpper = 98 / 5, Outliers = [- 21, 21]\<rparr>"
  by (simp add: calculateBlockStats_def calculateTwoSDRange_def calculateVariance_def
        calculateMedian_def calculateMean_def calculateOutliers_def at_index_def sqrt_2209_25)

subsection \<open>Rounding to the nearest double\<close>

lemma floor_log2:
  assumes "2 powi e \<le> y" and "y < 2 powi (e + 1)"
  shows "\<lfloor>log 2 y\<rfloor> = e"
proof -
  have pos: "0 < y" using assms(1) by (smt (verit) zero_less_power_int)
  have "2 powr (real_of_int e) = (2::real) powi e" "2 powr (real_of_int e + 1) = (2::real) powi (e + 1)"
    using powr_real_of_int' [of 2 e] powr_real_of_int' [of 2 "e + 1"] by simp_all
  then show ?thesis using assms pos by (simp add: floor_log_eq_powr_iff)
qed

lemma round_real_eval:
  assumes "2 powi e \<le> \<bar>x\<bar>" and "\<bar>x\<bar> < 2 powi (e + 1)" and "- 1022 \<le> e"
  shows "round_real x = of_int (rne (x / 2 powi (e - 52))) * 2 powi (e - 52)"
proof -
  have "x \<noteq> 0" using assms(1) by (smt (verit) zero_less_power_int)
  moreover have "\<lfloor>log 2 \<bar>x\<bar>\<rfloor> = e" by (rule floor_log2 [OF assms(1,2)])
  ultimately show ?thesis using assms(3) by (simp add: round_real_def Let_def max_def)
qed

lemma rne_nearest:
  assumes "\<bar>y - of_int n\<bar> < 1 / 2"
  shows "rne y = n"
proof (cases "of_int n \<le> y")
  case True
  then have "\<lfloor>y\<rfloor> = n" using assms by (intro floor_unique) auto
  then show ?thesis using assms True by (simp add: rne_def)
next
  case False
  then have "\<lfloor>y\<rfloor> = n - 1" using assms by (intro floor_unique) auto
  then show ?thesis using assms False by (simp add: rne_def)
qed

lemma round_real_nearest:
  assumes "2 powi e \<le> \<bar>x\<bar>" and "\<bar>x\<bar> < 2 powi (e + 1)" and "- 1022 \<le> e"
    and "\<bar>x - of_int n * 2 powi (e - 52)\<bar> < 2 powi (e - 53)"
  shows "round_real x = of_int n * 2 powi (e - 52)"
proof -
  define u :: real where "u = 2 powi (e - 52)"
  have u: "0 < u" by (simp add: u_def)
  have half: "2 powi (e - 53) = u / 2"
    by (simp add: u_def power_int_diff)
  have "\<bar>x / u - of_int n\<bar> = \<bar>x - of_int n * u\<bar> / u"
    using u by (simp add: field_simps abs_divide)
  also have "\<dots> < (u / 2) / u"
    using assms(4) u unfolding half u_def [symmetric] by (simp add: divide_strict_right_mono)
  finally have "\<bar>x / u - of_int n\<bar> < 1 / 2" using u by simp
  then have "rne (x / u) = n" by (rule rne_nearest)
  then show ?thesis using round_real_eval [OF assms(1-3)] by (simp add: u_def)
qed

subsection \<open>The operations of one evaluation, one by one\<close>

text \<open>The mean of the batch in its own order, then mean, variance and band of the batch in
  ascending order.\<close>

lemma len5: "round64 (real (length [x1, x2, x3, x4, x5])) = dbl 5 0"
  by (simp add: dbl_def round64_def round_real_eval [where e = 2] rne_def)

lemma f64_step_1: "fadd (Finite 0) (dbl 1801439850948199 (- 54)) = dbl 1801439850948199 (- 54)"
  by (simp add: dbl_def fsub_def round64_def round_real_eval [where e = "- 4"] rne_def)

lemma f64_step_2: "fadd (dbl 1801439850948199 (- 54)) (dbl 7205759403792795 (- 56)) = dbl 1801439850948199 (- 53)"
  by (simp add: dbl_def fsub_def round64_def round_real_eval [where e = "- 3"] rne_def)

lemma f64_step_3: "fadd (dbl 1801439850948199 (- 53)) (dbl 7205759403792795 (- 56)) = dbl 5404319552844597 (- 54)"
  by (simp add: dbl_def fsub_def round64_def round_real_eval [where e = "- 2"] rne_def)

lemma f64_step_4: "fadd (dbl 5404319552844597 (- 54)) (dbl 7205759403792795 (- 56)) = dbl 1801439850948199 (- 52)"
  by (simp add: dbl_def fsub_def round64_def round_real_eval [where e = "- 2"] rne_def)

lemma f64_step_5: "fadd (dbl 1801439850948199 (- 52)) (dbl 1801439850948199 (- 54)) = dbl 2251799813685249 (- 52)"
  by (simp add: dbl_def fsub_def round64_def round_real_eval [where e = "- 1"] rne_def)

lemma f64_step_6: "fdiv (dbl 2251799813685249 (- 52)) (dbl 5 0) = dbl 7205759403792797 (- 56)"
  by (simp add: dbl_def fsub_def round64_def round_real_eval [where e = "- 4"] rne_def)

lemma f64_step_7: "fadd (Finite 0) (dbl 7205759403792795 (- 56)) = dbl 7205759403792795 (- 56)"
  by (simp add: dbl_def fsub_def round64_def round_real_eval [where e = "- 4"] rne_def)

lemma f64_step_8: "fadd (dbl 7205759403792795 (- 56)) (dbl 7205759403792795 (- 56)) = dbl 7205759403792795 (- 55)"
  by (simp add: dbl_def fsub_def round64_def round_real_eval [where e = "- 3"] rne_def)

lemma f64_step_9: "fadd (dbl 7205759403792795 (- 55)) (dbl 7205759403792795 (- 56)) = dbl 1351079888211149 (- 52)"
  by (simp add: dbl_def fsub_def round64_def round_real_eval [where e = "- 2"] rne_def)

lemma f64_step_10: "fadd (dbl 1351079888211149 (- 52)) (dbl 1801439850948199 (- 54)) = dbl 7205759403792795 (- 54)"
  by (simp add: dbl_def fsub_def round64_def round_real_eval [where e = "- 2"] rne_def)

lemma f64_step_11: "fadd (dbl 7205759403792795 (- 54)) (dbl 1801439850948199 (- 54)) = dbl 4503599627370497 (- 53)"
  by (simp add: dbl_def fsub_def round64_def round_real_eval [where e = "- 1"] rne_def)

lemma f64_step_12: "fdiv (dbl 4503599627370497 (- 53)) (dbl 5 0) = dbl 7205759403792795 (- 56)"
  by (simp add: dbl_def fsub_def round64_def round_real_eval [where e = "- 4"] rne_def)

lemma f64_step_13: "fsub (dbl 7205759403792795 (- 56)) (dbl 7205759403792795 (- 56)) = dbl 0 0"
  by (simp add: dbl_def fsub_def round64_def round_real_def)

lemma f64_step_14: "fmul (dbl 0 0) (dbl 0 0) = dbl 0 0"
  by (simp add: dbl_def fsub_def round64_def round_real_def)

lemma f64_step_15: "fadd (Finite 0) (dbl 0 0) = dbl 0 0"
  by (simp add: dbl_def fsub_def round64_def round_real_def)

lemma f64_step_16: "fadd (dbl 0 0) (dbl 0 0) = dbl 0 0"
  by (simp add: dbl_def fsub_def round64_def round_real_def)

lemma f64_step_17: "fsub (dbl 1801439850948199 (- 54)) (dbl 7205759403792795 (- 56)) = dbl 1 (- 56)"
  by (simp add: dbl_def fsub_def round64_def round_real_eval [where e = "- 56"] rne_def)

lemma f64_step_18: "fmul (dbl 1 (- 56)) (dbl 1 (- 56)) = dbl 1 (- 112)"
  by (simp add: dbl_def fsub_def round64_def round_real_eval [where e = "- 112"] rne_def)

lemma f64_step_19: "fadd (dbl 0 0) (dbl 1 (- 112)) = dbl 1 (- 112)"
  by (simp add: dbl_def fsub_def round64_def round_real_eval [where e = "- 112"] rne_def)

lemma f64_step_20: "fadd (dbl 1 (- 112)) (dbl 1 (- 112)) = dbl 1 (- 111)"
  by (simp add: dbl_def fsub_def round64_def round_real_eval [where e = "- 111"] rne_def)

lemma f64_step_21: "fdiv (dbl 1 (- 111)) (dbl 5 0) = dbl 3602879701896397 (- 165)"
  by (simp add: dbl_def fsub_def round64_def round_real_eval [where e = "- 114"] rne_def)

lemma f64_step_22: "fmul (Finite 2) (dbl 5696652996790543 (- 109)) = dbl 5696652996790543 (- 108)"
  by (simp add: dbl_def fsub_def round64_def round_real_eval [where e = "- 56"] rne_def)

lemma f64_step_23: "fsub (dbl 7205759403792795 (- 56)) (dbl 5696652996790543 (- 108)) = dbl 3602879701896397 (- 55)"
  by (simp add: dbl_def fsub_def round64_def round_real_eval [where e = "- 4"] rne_def)

lemma f64_step_24: "fadd (dbl 7205759403792795 (- 56)) (dbl 5696652996790543 (- 108)) = dbl 1801439850948199 (- 54)"
  by (simp add: dbl_def fsub_def round64_def round_real_eval [where e = "- 4"] rne_def)

lemma sqrt_variance:
  "fsqrt (dbl 3602879701896397 (- 165)) = dbl 5696652996790543 (- 109)"
proof -
  define v :: real where "v = 3602879701896397 * 2 powi (- 165)"
  define s :: real where "s = 5696652996790543 * 2 powi (- 109)"
  define h :: real where "h = 2 powi (- 110)"
  have v: "0 \<le> v" by (simp add: v_def)
  have "(s - h)\<^sup>2 < v" by (simp add: s_def h_def v_def power2_eq_square)
  then have lo: "s - h < sqrt v" by (rule real_less_rsqrt)
  have "0 \<le> s + h" "v < (s + h)\<^sup>2" by (simp_all add: s_def h_def v_def power2_eq_square)
  then have hi: "sqrt v < s + h" by (intro real_less_lsqrt) 
  have "(2 powi (- 57))\<^sup>2 \<le> v" by (simp add: v_def power2_eq_square)
  then have b1: "2 powi (- 57) \<le> \<bar>sqrt v\<bar>" using real_le_rsqrt by fastforce
  have "v < (2 powi (- 57 + 1))\<^sup>2" by (simp add: v_def power2_eq_square)
  then have "sqrt v < 2 powi (- 57 + 1)" by (intro real_less_lsqrt) simp_all
  then have b2: "\<bar>sqrt v\<bar> < 2 powi (- 57 + 1)" using v by simp
  have "\<bar>sqrt v - s\<bar> < h" using lo hi by linarith
  moreover have "of_int 5696652996790543 * 2 powi (- 57 - 52) = s" by (simp add: s_def)
  moreover have "2 powi (- 57 - 53) = h" by (simp add: h_def)
  ultimately
  have near: "\<bar>sqrt v - of_int 5696652996790543 * 2 powi (- 57 - 52)\<bar> < 2 powi (- 57 - 53)"
    by (simp only:)
  have "round_real (sqrt v) = of_int 5696652996790543 * 2 powi (- 57 - 52)"
    by (rule round_real_nearest [OF b1 b2 _ near]) simp
  then show ?thesis using v by (simp add: dbl_def round64_def v_def)
qed

subsection \<open>A sum that overflows\<close>

text \<open>Two values of \<open>2^1023\<close>: the sum is \<open>+Inf\<close>, so is the mean, and the lower bound is
  \<open>Inf - Inf\<close>.\<close>

lemma overflow_band:
  "calculateMean_f64 [dbl 1 1023, dbl 1 1023] = PosInf
   \<and> calculateTwoSDRange_f64 [dbl 1 1023, dbl 1 1023] = (NaN, PosInf)"
proof -
  have two: "round64 2 = Finite 2"
    by (simp add: round64_def round_real_eval [where e = 1] rne_def)
  have first: "fadd (Finite 0) (dbl 1 1023) = dbl 1 1023"
    by (simp add: dbl_def round64_def round_real_eval [where e = 1023] rne_def)
  have sum: "fadd (dbl 1 1023) (dbl 1 1023) = PosInf"
    by (simp add: dbl_def round64_def round_real_eval [where e = 1024] rne_def)
  have m: "calculateMean_f64 [dbl 1 1023, dbl 1 1023] = PosInf"
    by (simp add: calculateMean_f64_def two first sum)
  have d: "fsub (dbl 1 1023) PosInf = NegInf" by (simp add: fsub_def dbl_def)
  have v: "calculateVariance_f64 [dbl 1 1023, dbl 1 1023] PosInf = PosInf"
    by (simp add: calculateVariance_f64_def two d)
  show ?thesis by (simp add: calculateTwoSDRange_f64_def m v fsub_def)
qed

section \<open>Claims\<close>

text \<open>
  C1 (as amended). \<^verbatim>\<open>AddBlock\<close> re-marks the chain before it appends: after any append,
  every block other than the one just appended whose outliers are non-empty carries the
  sentinel; the block just appended carries its own digest of 64 characters, never the
  sentinel, whatever its outliers.
\<close>

theorem remarking_skips_new_block:
  assumes "AddBlock rv e s now values bc = Inr bc'"
  shows "length (chain bc') = Suc (length (chain bc))
         \<and> (\<forall>i<length (chain bc). Outliers (chain bc' ! i) \<noteq> [] \<longrightarrow>
               Hash (chain bc' ! i) = OUTLIER_BLOCK_HASH rv)
         \<and> Hash (last (chain bc')) = calculateHash e (last (chain bc'))
         \<and> length (Hash (last (chain bc'))) = 64
         \<and> Hash (last (chain bc')) \<noteq> OUTLIER_BLOCK_HASH rv"
proof -
  have old: "\<forall>i<length (chain bc). Outliers (chain bc' ! i) \<noteq> [] \<longrightarrow>
               Hash (chain bc' ! i) = OUTLIER_BLOCK_HASH rv"
    by (auto simp: AddBlock_old [OF assms] split: if_splits)
  have new: "Hash (last (chain bc')) = calculateHash e (last (chain bc'))"
    by (rule AddBlock_last(6) [OF assms])
  have "length (Hash (last (chain bc'))) = 64"
    using new length_calculateHash [of e "last (chain bc')"] by simp
  moreover have "Hash (last (chain bc')) \<noteq> OUTLIER_BLOCK_HASH rv"
    using new calculateHash_not_sentinel [of e "last (chain bc')" rv] by simp
  ultimately show ?thesis using old new AddBlock_last(2) [OF assms] by blast
qed

theorem remarking_skips_new_block_witness:
  "AddBlock Main_go env0 (sched call2) (clock call2) (batch call2) chain1 = Inr chain2
   \<and> Outliers (chain chain2 ! 1) = [11]
   \<and> Hash (chain chain1 ! 1) = replicate 64 CHR ''0''
   \<and> Hash (chain chain2 ! 1) = OUTLIER_BLOCK_HASH Main_go
   \<and> Hash (last (chain chain2)) = calculateHash env0 (last (chain chain2))
   \<and> Hash (last (chain chain2)) \<noteq> OUTLIER_BLOCK_HASH Main_go"
proof -
  note t = remarking_skips_new_block [OF AddBlock_call2]
  from t have "\<forall>i<length (chain chain1). Outliers (chain chain2 ! i) \<noteq> [] \<longrightarrow>
                  Hash (chain chain2 ! i) = OUTLIER_BLOCK_HASH Main_go"
    by blast
  from this [rule_format, of 1]
  have "Hash (chain chain2 ! 1) = OUTLIER_BLOCK_HASH Main_go"
    by (simp add: chain1_def chain2_def)
  moreover have "Outliers (chain chain2 ! 1) = [11]" by (simp add: chain2_def)
  moreover have "Hash (chain chain1 ! 1) = replicate 64 CHR ''0''" by (simp add: chain1_def)
  ultimately show ?thesis using t AddBlock_call2 by blast
qed

text \<open>The claim as stated fails: the first call appends a block with the outlier \<open>11\<close>,
  and that block does not carry the sentinel when the call returns.\<close>

theorem new_block_not_marked:
  "AddBlock Main_go env0 (sched call1) (clock call1) (batch call1) (NewBlockchain env0 0) =
     Inr chain1
   \<and> Outliers (last (chain chain1)) = [11]
   \<and> Hash (last (chain chain1)) \<noteq> OUTLIER_BLOCK_HASH Main_go"
  using zeros_not_sentinel [of Main_go] by (simp add: AddBlock_call1) (simp add: chain1_def)

text \<open>
  C2 (as amended). \<^verbatim>\<open>AddBlock\<close> has no rejection: it returns nothing and checks nothing.
  On non-empty batches it never fails: any sequence of appends of non-empty batches, under
  any order of the goroutines, runs to the end and leaves one block for each call after
  the genesis block.
\<close>

theorem append_total_on_nonempty:
  assumes "\<forall>c\<in>set cs. batch c \<noteq> []"
  shows "\<exists>bc. run rv e t0 cs = Inr bc \<and> length (chain bc) = Suc (length cs)"
proof -
  have "chain (NewBlockchain e t0) \<noteq> []" by (simp add: NewBlockchain_def Let_def)
  from appends_total [OF this assms, of rv e] show ?thesis
    by (auto simp: run_def NewBlockchain_def Let_def)
qed

theorem append_total_on_nonempty_witness:
  "batch call1 \<noteq> [] \<and> batch call2 \<noteq> []
   \<and> run Main_go env0 0 [call1, call2] = Inr chain2 \<and> length (chain chain2) = 3"
proof -
  have b: "batch call1 \<noteq> [] \<and> batch call2 \<noteq> []" by (simp add: call1_def call2_def)
  then have "\<forall>c\<in>set [call1, call2]. batch c \<noteq> []" by simp
  from append_total_on_nonempty [OF this, of Main_go env0 0]
  have "length (chain chain2) = 3" by (simp add: run_call12)
  then show ?thesis using b run_call12 by simp
qed

text \<open>The claim as stated fails: an empty batch is not rejected before the statistics; the
  failure is the panic of the median goroutine, which indexes the empty slice at \<open>-1\<close>.\<close>

theorem empty_batch_panics:
  "AddBlock Main_go env0 [GoMean, GoTwoSDRange, GoOutliers, GoMedian] 1700000000000000000 []
     (NewBlockchain env0 0) = Inl (IndexOutOfRange (- 1) 0)"
  by (simp add: AddBlock_def NewBlockchain_def at_index_def calculateBlockStats_def
        calculateTwoSDRange_def calculateVariance_def calculateMedian_def calculateMean_def
        calculateOutliers_def)

text \<open>
  C3 (a defect of the code). The outliers goroutine reads the band without waiting for
  the goroutine that computes it. When it runs first, the band it reads is still
  \<open>(0, 0)\<close> and every non-zero value of the batch is stored as an outlier, although only
  \<open>11\<close> lies outside the band \<open>(-4, 8)\<close> that the block ends up with.
\<close>

theorem outliers_race_zero_band:
  "calculateBlockStats [GoOutliers, GoMean, GoMedian, GoTwoSDRange]
     \<lparr>Index = 1, Timestamp = 1700000000000000000, Values = [11, 1, 1, 1, 1, 1, 1, 1, 1, 1],
      Hash = [], PrevHash = replicate 64 CHR ''0'', Mean = 0, Median = 0, TwoSDLower = 0,
      TwoSDUpper = 0, Outliers = []\<rparr> =
   Inr \<lparr>Index = 1, Timestamp = 1700000000000000000, Values = [1, 1, 1, 1, 1, 1, 1, 1, 1, 11],
      Hash = [], PrevHash = replicate 64 CHR ''0'', Mean = 2, Median = 1, TwoSDLower = - 4,
      TwoSDUpper = 8, Outliers = [11, 1, 1, 1, 1, 1, 1, 1, 1, 1]\<rparr>"
  by (simp add: calculateBlockStats_def calculateTwoSDRange_def calculateVariance_def
        calculateMedian_def calculateMean_def calculateOutliers_def at_index_def sqrt_9)

text \<open>
  C4. In a chain built by \<^verbatim>\<open>NewBlockchain\<close> and any number of appends, the block at
  position \<open>i\<close> has index \<open>i\<close>, and the \<^verbatim>\<open>PrevHash\<close> of block \<open>n > 0\<close> is the
  \<^verbatim>\<open>Hash\<close> that block \<open>n - 1\<close> had in the chain of the first \<open>n - 1\<close> appends, the chain
  that the append of block \<open>n\<close> read, whatever later appends wrote into that field.
\<close>

theorem chain_integrity:
  assumes "run rv e t0 cs = Inr bc"
  shows "length (chain bc) = Suc (length cs)
         \<and> (\<forall>i<length (chain bc). Index (chain bc ! i) = int i)
         \<and> (\<forall>n. 0 < n \<and> n \<le> length cs \<longrightarrow>
               (\<exists>bcp. run rv e t0 (take (n - 1) cs) = Inr bcp \<and> length (chain bcp) = n
                      \<and> PrevHash (chain bc ! n) = Hash (chain bcp ! (n - 1))))"
proof -
  have "\<exists>bcp. run rv e t0 (take (n - 1) cs) = Inr bcp \<and> length (chain bcp) = n
              \<and> PrevHash (chain bc ! n) = Hash (chain bcp ! (n - 1))"
    if n: "0 < n" "n \<le> length cs" for n
  proof -
    from run_take [OF assms] obtain bcp where p: "run rv e t0 (take (n - 1) cs) = Inr bcp"
      by blast
    have l: "length (chain bcp) = n" using run_length [OF p] n by simp
    then have "last (chain bcp) = chain bcp ! (n - 1)"
      using n by (auto simp: last_conv_nth)
    then show ?thesis using run_PrevHash [OF assms n p] p l by auto
  qed
  then show ?thesis using run_length [OF assms] run_Index [OF assms] by blast
qed

theorem chain_integrity_witness:
  "run Main_go env0 0 [call1, call2] = Inr chain2
   \<and> run Main_go env0 0 [call1] = Inr chain1
   \<and> map Index (chain chain2) = [0, 1, 2]
   \<and> Hash (chain chain2 ! 1) = OUTLIER_BLOCK_HASH Main_go
   \<and> PrevHash (chain chain2 ! 2) = Hash (chain chain1 ! 1)
   \<and> PrevHash (chain chain2 ! 2) \<noteq> Hash (chain chain2 ! 1)"
proof -
  from chain_integrity [OF run_call12]
  have "\<forall>n. 0 < n \<and> n \<le> length [call1, call2] \<longrightarrow>
          (\<exists>bcp. run Main_go env0 0 (take (n - 1) [call1, call2]) = Inr bcp
             \<and> length (chain bcp) = n
             \<and> PrevHash (chain chain2 ! n) = Hash (chain bcp ! (n - 1)))"
    by blast
  from this [rule_format, of 2]
  have "PrevHash (chain chain2 ! 2) = Hash (chain chain1 ! 1)"
    by (simp add: run_call1)
  moreover have "map Index (chain chain2) = [0, 1, 2]" by (simp add: chain2_def)
  moreover have "Hash (chain chain2 ! 1) = OUTLIER_BLOCK_HASH Main_go"
    by (simp add: chain2_def OUTLIER_BLOCK_HASH_def)
  moreover have "PrevHash (chain chain2 ! 2) \<noteq> Hash (chain chain2 ! 1)"
    using zeros_not_sentinel [of Main_go] by (simp add: chain2_def OUTLIER_BLOCK_HASH_def)
  ultimately show ?thesis using run_call1 run_call12 by simp
qed

text \<open>
  C5 (a defect of the code). The mean goroutine and the band goroutine each sum the slice
  on their own, and the median goroutine sorts it in between. On the batch
  \<^verbatim>\<open>0x1.999999999999cp-4\<close>, three times \<^verbatim>\<open>0x1.999999999999bp-4\<close>,
  \<^verbatim>\<open>0x1.999999999999cp-4\<close>, the mean summed in the order of the batch is
  \<^verbatim>\<open>0x1.999999999999dp-4\<close>, and the band computed from the sorted slice, the second list
  below, is \<^verbatim>\<open>(0x1.999999999999ap-4, 0x1.999999999999cp-4)\<close>: the mean lies above the
  upper bound.
\<close>

theorem mean_above_band:
  "calculateMean_f64
     [dbl 1801439850948199 (- 54), dbl 7205759403792795 (- 56), dbl 7205759403792795 (- 56),
      dbl 7205759403792795 (- 56), dbl 1801439850948199 (- 54)] =
     dbl 7205759403792797 (- 56)
   \<and> calculateTwoSDRange_f64
     [dbl 7205759403792795 (- 56), dbl 7205759403792795 (- 56), dbl 7205759403792795 (- 56),
      dbl 1801439850948199 (- 54), dbl 1801439850948199 (- 54)] =
     (dbl 3602879701896397 (- 55), dbl 1801439850948199 (- 54))
   \<and> \<not> fle (dbl 7205759403792797 (- 56)) (dbl 1801439850948199 (- 54))"
proof -
  have m: "calculateMean_f64
     [dbl 1801439850948199 (- 54), dbl 7205759403792795 (- 56), dbl 7205759403792795 (- 56),
      dbl 7205759403792795 (- 56), dbl 1801439850948199 (- 54)] =
     dbl 7205759403792797 (- 56)"
    by (simp only: calculateMean_f64_def foldl.simps len5 f64_step_1 f64_step_2 f64_step_3 f64_step_4 f64_step_5 f64_step_6)
  have m': "calculateMean_f64
     [dbl 7205759403792795 (- 56), dbl 7205759403792795 (- 56), dbl 7205759403792795 (- 56),
      dbl 1801439850948199 (- 54), dbl 1801439850948199 (- 54)] =
     dbl 7205759403792795 (- 56)"
    by (simp only: calculateMean_f64_def foldl.simps len5 f64_step_7 f64_step_8 f64_step_9 f64_step_10 f64_step_11 f64_step_12)
  have v: "calculateVariance_f64
     [dbl 7205759403792795 (- 56), dbl 7205759403792795 (- 56), dbl 7205759403792795 (- 56),
      dbl 1801439850948199 (- 54), dbl 1801439850948199 (- 54)] (dbl 7205759403792795 (- 56)) =
     dbl 3602879701896397 (- 165)"
    by (simp only: calculateVariance_f64_def foldl.simps Let_def len5
          f64_step_13 f64_step_14 f64_step_15 f64_step_16 f64_step_17 f64_step_18 f64_step_19 f64_step_20 f64_step_21)
  have r: "calculateTwoSDRange_f64
     [dbl 7205759403792795 (- 56), dbl 7205759403792795 (- 56), dbl 7205759403792795 (- 56),
      dbl 1801439850948199 (- 54), dbl 1801439850948199 (- 54)] =
     (dbl 3602879701896397 (- 55), dbl 1801439850948199 (- 54))"
    by (simp only: calculateTwoSDRange_f64_def Let_def m' v sqrt_variance f64_step_22 f64_step_23 f64_step_24)
  have "\<not> fle (dbl 7205759403792797 (- 56)) (dbl 1801439850948199 (- 54))"
    by (simp add: dbl_def)
  with m r show ?thesis by blast
qed

text \<open>
  C6. For a non-empty batch, \<^verbatim>\<open>calculateMedian\<close> returns the middle element of the
  ascending batch when the count is odd and the average of the two central elements when
  it is even (\<open>spec_median\<close>), leaving the slice sorted; and it returns the same on every
  permutation of the batch.
\<close>

theorem median_sorted_middle:
  assumes "values \<noteq> []" and "mset ws = mset values"
  shows "calculateMedian values = Inr (sort values, spec_median values)
         \<and> calculateMedian ws = calculateMedian values"
proof -
  have same: "sort ws = sort values"
    using assms(2) by (metis sorted_sort mset_sort properties_for_sort)
  have len: "length ws = length values" using assms(2) by (metis size_mset)
  have ws: "ws \<noteq> []" using assms len by auto
  have "calculateMedian values = Inr (sort values, spec_median values)"
    by (simp add: calculateMedian_nonempty [OF assms(1)] spec_median_def Let_def)
  moreover have "calculateMedian ws = Inr (sort values, spec_median values)"
    by (simp add: calculateMedian_nonempty [OF ws] spec_median_def Let_def same len)
  ultimately show ?thesis by simp
qed

theorem median_sorted_middle_witness:
  "calculateMedian [3, 1, 2] = Inr ([1, 2, 3], 2)
   \<and> calculateMedian [4, 1, 3, 2] = Inr ([1, 2, 3, 4], 5 / 2)
   \<and> calculateMedian [2, 3, 1] = calculateMedian [3, 1, 2]"
  using median_sorted_middle [of "[3, 1, 2]" "[2, 3, 1]"]
    median_sorted_middle [of "[4, 1, 3, 2]" "[4, 1, 3, 2]"]
  by (simp add: spec_median_def)

text \<open>
  C7. The fingerprint is the digest of the message written in 64 lower-case hexadecimal
  digits: read as a number it is the digest, and the message is the concatenation of
  index, Unix seconds of the timestamp, values, previous fingerprint, mean, median, lower
  and upper bound, outliers, in this order (\<open>spec_message\<close>). Two blocks that agree on
  these fields have the same fingerprint.
\<close>

theorem fingerprint_hex_digest:
  assumes "Index b' = Index b" and "Unix (Timestamp b') = Unix (Timestamp b)"
    and "Values b' = Values b" and "PrevHash b' = PrevHash b" and "Mean b' = Mean b"
    and "Median b' = Median b" and "TwoSDLower b' = TwoSDLower b"
    and "TwoSDUpper b' = TwoSDUpper b" and "Outliers b' = Outliers b"
  shows "spec_hex_value (calculateHash e b) = unat (Sum256 e (spec_message e b))
         \<and> length (calculateHash e b) = 64
         \<and> set (calculateHash e b) \<subseteq> set ''0123456789abcdef''
         \<and> calculateHash e b' = calculateHash e b"
proof -
  have "blockData e b' = blockData e b"
    using assms by (simp add: blockData_def)
  then have "calculateHash e b' = calculateHash e b"
    by (simp add: calculateHash_def)
  moreover have "set (calculateHash e b) \<subseteq> set ''0123456789abcdef''"
    using set_EncodeToString [of "digest_bytes (Sum256 e (blockData e b))"]
    by (simp only: calculateHash_def hextable_def)
  ultimately show ?thesis
    using spec_hex_value_calculateHash [of e b] length_calculateHash [of e b] by blast
qed

theorem fingerprint_hex_digest_witness:
  "Unix 1700000000999999999 = Unix (Timestamp block1)
   \<and> spec_message env1 block1 =
       ''11700000000[1000000 2000000]00150000015000005000002500000[]''
   \<and> spec_hex_value (calculateHash env1 block1) =
       4563557977191748495412592677507283721819885994276677656056557955906285533396
   \<and> length (calculateHash env1 block1) = 64
   \<and> calculateHash env1 (block1\<lparr>Timestamp := 1700000000999999999, Hash := ''abc''\<rparr>) =
       calculateHash env1 block1
   \<and> calculateHash env1 (block1\<lparr>Values := [1, 3]\<rparr>) \<noteq> calculateHash env1 block1"
proof -
  let ?b' = "block1\<lparr>Timestamp := 1700000000999999999, Hash := ''abc''\<rparr>"
  let ?c = "block1\<lparr>Values := [1, 3]\<rparr>"
  have sec: "Unix 1700000000999999999 = Unix (Timestamp block1)"
    by (simp add: Unix_def block1_def)
  have same: "spec_hex_value (calculateHash env1 block1) =
                unat (Sum256 env1 (spec_message env1 block1))
              \<and> length (calculateHash env1 block1) = 64
              \<and> set (calculateHash env1 block1) \<subseteq> set ''0123456789abcdef''
              \<and> calculateHash env1 ?b' = calculateHash env1 block1"
    by (rule fingerprint_hex_digest) (simp_all add: sec)
  have other: "spec_hex_value (calculateHash env1 ?c) = unat (Sum256 env1 (spec_message env1 ?c))"
    using fingerprint_hex_digest [of ?c ?c env1] by simp
  have v1: "spec_hex_value (calculateHash env1 block1) =
              4563557977191748495412592677507283721819885994276677656056557955906285533396"
    using same by (simp add: message_block1 digest_block1 Sum256_env1)
  have v2: "spec_hex_value (calculateHash env1 ?c) =
              109991185146866614866045582199474687503166170467200877821164186120365480222421"
    using other by (simp add: message_block1_other digest_block1_other Sum256_env1)
  have "calculateHash env1 ?c \<noteq> calculateHash env1 block1"
    using v1 v2 by auto
  then show ?thesis using sec same v1 message_block1 by blast
qed





end
